theory Spec2Isabelle
  imports Main "HOL-Library.Char_ord" "HOL-Library.List_Lexorder" "HOL-Library.AList"
begin

section \<open>Python values and strings\<close>

text \<open>
  The backend is \<^verbatim>\<open>src/backend/main.py\<close>. Python strings are modelled as HOL strings, one
  \<^typ>\<open>char\<close> per code point, so the model covers texts over the code points U+0000..U+00FF.
  On that range \<^verbatim>\<open>str.isspace\<close>, \<^verbatim>\<open>str.lower\<close>, \<^verbatim>\<open>str.strip\<close> and \<^verbatim>\<open>str.split\<close> are
  written out below as Python defines them.
\<close>

datatype exn = TypeError | ValueError | KeyError | OSError | JSONDecodeError | RuntimeError

text \<open>
  The \<^verbatim>\<open>rating\<close> argument is annotated \<^verbatim>\<open>int\<close>; the code nevertheless guards every
  \<^verbatim>\<open>int(rating)\<close> with \<^verbatim>\<open>try\<close>. \<open>PyNone\<close> is the value on which \<^verbatim>\<open>int(...)\<close> raises.
\<close>

datatype pyval = PyNone | PyInt int

definition py_int :: "pyval \<Rightarrow> exn + int" where
  "py_int v = (case v of PyNone \<Rightarrow> Inl TypeError | PyInt n \<Rightarrow> Inr n)"

definition isspace :: "char \<Rightarrow> bool" where
  "isspace c =
     (let n = (of_char c :: nat)
      in (9 \<le> n \<and> n \<le> 13) \<or> (28 \<le> n \<and> n \<le> 32) \<or> n = 133 \<or> n = 160)"

definition lower_char :: "char \<Rightarrow> char" where
  "lower_char c =
     (let n = (of_char c :: nat)
      in if (65 \<le> n \<and> n \<le> 90) \<or> (192 \<le> n \<and> n \<le> 222 \<and> n \<noteq> 215)
         then char_of (n + 32) else c)"

definition lower :: "string \<Rightarrow> string" where
  "lower s = map lower_char s"

definition lstrip :: "string \<Rightarrow> string" where
  "lstrip s = dropWhile isspace s"

definition rstrip :: "string \<Rightarrow> string" where
  "rstrip s = rev (dropWhile isspace (rev s))"

definition strip :: "string \<Rightarrow> string" where
  "strip s = rstrip (lstrip s)"

fun startswith :: "string \<Rightarrow> string \<Rightarrow> bool" where
  "startswith _ [] = True"
| "startswith [] (_ # _) = False"
| "startswith (c # cs) (w # ws) = (c = w \<and> startswith cs ws)"

text \<open>\<open>py_in w text\<close> is Python's \<^verbatim>\<open>w in text\<close> on strings: substring containment.\<close>

fun py_in :: "string \<Rightarrow> string \<Rightarrow> bool" where
  "py_in w [] = (w = [])"
| "py_in w (c # cs) = (startswith (c # cs) w \<or> py_in w cs)"

section \<open>Sentiment heuristic\<close>

definition strong_pos :: "string list" where
  "strong_pos = [''amazing'', ''excellent'', ''outstanding'', ''perfect'', ''incredible'',
                 ''fantastic'', ''love'', ''highly recommend'']"

definition soft_pos :: "string list" where
  "soft_pos = [''good'', ''tasty'', ''fresh'', ''nice'', ''friendly'', ''enjoyed'',
               ''satisfied'', ''would come back'']"

definition strong_neg :: "string list" where
  "strong_neg = [''terrible'', ''horrible'', ''awful'', ''worst'', ''disgusting'',
                 ''never again'', ''ruined'', ''unacceptable'']"

definition soft_neg :: "string list" where
  "soft_neg = [''bad'', ''cold'', ''slow'', ''rude'', ''disappointed'', ''disappointing'',
               ''overpriced'', ''not good'']"

text \<open>One \<^verbatim>\<open>for word in ws: if word in text: score += d\<close> loop.\<close>

definition add_hits :: "int \<Rightarrow> string list \<Rightarrow> string \<Rightarrow> int \<Rightarrow> int" where
  "add_hits d ws text score = fold (\<lambda>word s. if py_in word text then s + d else s) ws score"

definition keyword_score :: "string \<Rightarrow> int" where
  "keyword_score text =
     add_hits (- 1) soft_neg text
       (add_hits (- 2) strong_neg text
         (add_hits 1 soft_pos text
           (add_hits 2 strong_pos text 0)))"

text \<open>The \<^verbatim>\<open>base\<close> rating: \<^verbatim>\<open>int(rating)\<close>, replaced by 3 when out of range or unparseable.\<close>

definition base_rating :: "pyval \<Rightarrow> int" where
  "base_rating rating =
     (case py_int rating of
        Inr b \<Rightarrow> if \<not> (1 \<le> b \<and> b \<le> 5) then 3 else b
      | Inl _ \<Rightarrow> 3)"

definition predict_stars_from_text_heuristic :: "pyval \<Rightarrow> string \<Rightarrow> int option" where
  "predict_stars_from_text_heuristic rating review_text =
     (let text = lower review_text
      in if strip text = [] then
           (case py_int rating of
              Inr r \<Rightarrow> if 1 \<le> r \<and> r \<le> 5 then Some r else None
            | Inl _ \<Rightarrow> None)
         else
           (let score = keyword_score text;
                base = base_rating rating
            in if score \<ge> 4 then Some 5
               else if score = 3 then Some 4
               else if score = 2 then Some (if base \<ge> 4 then 4 else 3)
               else if score = 1 then Some (if base \<le> 3 then 3 else 4)
               else if score = 0 then Some base
               else if score = - 1 then Some (if base \<le> 3 then 2 else 3)
               else if score \<le> - 2 then Some 1
               else Some base))"

section \<open>Instant pack\<close>

text \<open>\<^verbatim>\<open>str.split()\<close> without arguments: the maximal runs of non-whitespace characters.\<close>

fun split_from :: "string \<Rightarrow> string \<Rightarrow> string list" where
  "split_from cur [] = (if cur = [] then [] else [cur])"
| "split_from cur (c # cs) =
     (if isspace c then (if cur = [] then split_from [] cs else cur # split_from [] cs)
      else split_from (cur @ [c]) cs)"

definition split :: "string \<Rightarrow> string list" where
  "split s = split_from [] s"

fun join :: "string \<Rightarrow> string list \<Rightarrow> string" where
  "join sep [] = []"
| "join sep [w] = w"
| "join sep (w # v # ws) = w @ sep @ join sep (v # ws)"

definition endswith :: "string \<Rightarrow> string \<Rightarrow> bool" where
  "endswith s suffix = startswith (rev s) (rev suffix)"

text \<open>\<^verbatim>\<open>str(n)\<close> for an integer: its decimal digits, with a minus sign when negative.\<close>

definition digit_char :: "nat \<Rightarrow> char" where
  "digit_char d = char_of (48 + d)"

fun digits :: "nat \<Rightarrow> string" where
  "digits n = (if n < 10 then [digit_char n] else digits (n div 10) @ [digit_char (n mod 10)])"

declare digits.simps [simp del]

definition str_int :: "int \<Rightarrow> string" where
  "str_int i = (if i < 0 then CHR ''-'' # digits (nat (- i)) else digits (nat i))"

definition py_str :: "pyval \<Rightarrow> string" where
  "py_str v = (case v of PyNone \<Rightarrow> ''None'' | PyInt n \<Rightarrow> str_int n)"

text \<open>\<^verbatim>\<open>a or b\<close> on strings: \<open>b\<close> when \<open>a\<close> is empty.\<close>

definition str_or :: "string \<Rightarrow> string \<Rightarrow> string" where
  "str_or a b = (if a = [] then b else a)"

record ai_pack =
  ai_response :: string
  ai_summary :: string
  ai_recommended_actions :: string
  predicted_stars :: "int option"
  prediction_explanation :: string

text \<open>The first eighteen words of the stripped review text, joined by single spaces.\<close>

definition snippet_words :: "string \<Rightarrow> string list" where
  "snippet_words review_text = take 18 (split (strip review_text))"

definition ends_terminal :: "string \<Rightarrow> bool" where
  "ends_terminal s = (endswith s ''.'' \<or> endswith s ''!'' \<or> endswith s ''?'')"

definition snippet_of :: "string \<Rightarrow> string" where
  "snippet_of review_text =
     (let snippet = strip (join '' '' (snippet_words review_text))
      in if snippet \<noteq> [] \<and> \<not> ends_terminal snippet then snippet @ ''...'' else snippet)"

definition effective_rating_of :: "pyval \<Rightarrow> string \<Rightarrow> int" where
  "effective_rating_of rating review_text =
     (case predict_stars_from_text_heuristic rating review_text of
        Some sentiment_based \<Rightarrow> sentiment_based
      | None \<Rightarrow> base_rating rating)"

text \<open>
  The three fixed action lists. The mixed-review list contains, between \<open>1\<close> and \<open>2 weeks\<close>,
  three characters that the source file spells U+201A U+00C4 U+00EC; they are given here by
  their UTF-8 bytes. No function of the program inspects these texts.
\<close>

definition actions_negative :: string where
  "actions_negative =
     ''Here is a quick action plan based on this negative experience:'' @ [CHR 0x0A] @ ''1. Investigate the specific problems mentioned in the review and document the root causes so the team clearly understands what went wrong.'' @ [CHR 0x0A] @ ''2. Provide targeted coaching or refresher training for the staff involved, focusing on service recovery, communication, and food quality standards.'' @ [CHR 0x0A] @ ''3. Proactively follow up with the customer, explain the corrective steps you are taking, and offer a recovery gesture (apology, replacement, or discount) to rebuild trust.''"

definition actions_mixed :: string where
  "actions_mixed =
     ''Here is a balanced improvement plan for this mixed review:'' @ [CHR 0x0A] @ ''1. Identify the main friction point mentioned (for example, speed, consistency, or communication) and create a small experiment or SOP change to address it over the next 1'' @ [CHR 0xE2, CHR 0x80, CHR 0x9A] @ [CHR 0xC3, CHR 0x84] @ [CHR 0xC3, CHR 0xAC] @ ''2 weeks.'' @ [CHR 0x0A] @ ''2. Preserve the strengths the customer liked by sharing those positives with the team and building them into your standard operating procedures.'' @ [CHR 0x0A] @ ''3. Monitor reviews with similar themes and track before/after ratings so you can confirm whether the changes are actually improving the guest experience.''"

definition actions_positive :: string where
  "actions_positive =
     ''Here is how you can turn this positive feedback into long-term value:'' @ [CHR 0x0A] @ ''1. Share this review with the full team to recognize their effort, and call out any specific individuals or shifts that contributed so they feel appreciated.'' @ [CHR 0x0A] @ ''2. Document what went especially well (speed, flavor, friendliness, ambiance) and turn those behaviors into clear standards or checklists for every shift.'' @ [CHR 0x0A] @ ''3. Use this review in your marketing or in-store signage (with permission), and train staff to invite similarly satisfied guests to leave their own reviews to build momentum.''"

definition instant_explanation :: string where
  "instant_explanation =
     ''Prediction approximated from the text sentiment and given rating for a fast response.''"

definition instant_ai_pack :: "pyval \<Rightarrow> string \<Rightarrow> string option \<Rightarrow> ai_pack" where
  "instant_ai_pack rating review_text username =
     (let name = (case username of None \<Rightarrow> ''there'' | Some u \<Rightarrow> str_or u ''there'');
          snippet = snippet_of review_text;
          effective_rating = effective_rating_of rating review_text;
          predicted = (if \<not> (1 \<le> effective_rating \<and> effective_rating \<le> 5) then 3
                       else effective_rating)
      in if effective_rating \<le> 2 then
           \<lparr> ai_response =
               ''Hi '' @ name
               @ '', thank you for telling us about your experience. I'' @ [CHR 0x27] @ ''m really sorry things did not go well. We take feedback like '' @ [CHR 0x27]
               @ str_or snippet ''your review''
               @ [CHR 0x27] @ '' seriously and we'' @ [CHR 0x27] @ ''ll work with our team to fix these issues. We hope you'' @ [CHR 0x27] @ ''ll give us another chance so we can make your next visit much better.'',
             ai_summary =
               ''Customer gave a '' @ py_str rating
               @ ''-star rating and the review feels **negative**. Key issue described: **''
               @ str_or snippet ''no clear details provided''
               @ ''**.'',
             ai_recommended_actions = actions_negative,
             predicted_stars = Some predicted,
             prediction_explanation = instant_explanation \<rparr>
         else if effective_rating = 3 then
           \<lparr> ai_response =
               ''Thank you '' @ name
               @ '' for the honest and balanced feedback. You mentioned '' @ [CHR 0x27]
               @ str_or snippet ''both positives and negatives''
               @ [CHR 0x27] @ '', and we'' @ [CHR 0x27] @ ''ll use this to improve. We appreciate you giving us a chance and hope your next visit will feel even better.'',
             ai_summary =
               ''Customer gave a '' @ py_str rating
               @ ''-star rating and the review sounds **mixed/neutral**. Main points: **''
               @ str_or snippet ''no clear details provided''
               @ ''**.'',
             ai_recommended_actions = actions_mixed,
             predicted_stars = Some predicted,
             prediction_explanation = instant_explanation \<rparr>
         else
           \<lparr> ai_response =
               ''Thank you '' @ name
               @ '' for such a wonderful review and the '' @ py_str rating
               @ ''-star rating! We'' @ [CHR 0x27] @ ''re really happy you enjoyed your visit, especially your note: '' @ [CHR 0x27]
               @ str_or snippet ''your kind words''
               @ [CHR 0x27] @ ''. We'' @ [CHR 0x27] @ ''re grateful to have you as a customer and we'' @ [CHR 0x27] @ ''re still improving our service every day to make your future visits even better.'',
             ai_summary =
               ''Customer gave a '' @ py_str rating
               @ ''-star rating and the review feels **positive**. Key praise: **''
               @ str_or snippet ''no extra details provided''
               @ ''**.'',
             ai_recommended_actions = actions_positive,
             predicted_stars = Some predicted,
             prediction_explanation = instant_explanation \<rparr>)"

definition fallback_ai_pack :: "pyval \<Rightarrow> string \<Rightarrow> string option \<Rightarrow> ai_pack" where
  "fallback_ai_pack rating review_text username = instant_ai_pack rating review_text username"

section \<open>JSON values and the model reply\<close>

text \<open>
  What \<^verbatim>\<open>json.loads\<close> returns. A Python dict keeps its keys in insertion order, so an object
  is an association list with distinct keys. Numbers are the integers: fractional JSON numbers
  are outside the model.
\<close>

datatype json = JNull | JBool bool | JInt int | JStr string | JArr "json list"
  | JObj "(string \<times> json) list"

type_synonym dict = "(string \<times> json) list"

text \<open>
  Four library functions are parameters of the model: \<^verbatim>\<open>json.loads\<close> (\<open>None\<close> when it
  raises), \<^verbatim>\<open>str\<close> of a list or dict, \<^verbatim>\<open>int\<close> of a string (\<open>None\<close> when it raises), and
  \<^verbatim>\<open>list.sort\<close> on two or more records whose sort keys are not all strings (\<open>None\<close> when a
  comparison raises \<^verbatim>\<open>TypeError\<close>).
\<close>

record builtins =
  json_loads :: "string \<Rightarrow> json option"
  repr_of :: "json \<Rightarrow> string"
  int_of_str :: "string \<Rightarrow> int option"
  sort_other :: "dict list \<Rightarrow> dict list option"

definition truthy :: "json \<Rightarrow> bool" where
  "truthy v =
     (case v of JNull \<Rightarrow> False | JBool b \<Rightarrow> b | JInt n \<Rightarrow> n \<noteq> 0 | JStr s \<Rightarrow> s \<noteq> []
      | JArr xs \<Rightarrow> xs \<noteq> [] | JObj d \<Rightarrow> d \<noteq> [])"

definition json_str :: "builtins \<Rightarrow> json \<Rightarrow> string" where
  "json_str py v =
     (case v of JNull \<Rightarrow> ''None'' | JBool b \<Rightarrow> (if b then ''True'' else ''False'')
      | JInt n \<Rightarrow> str_int n | JStr s \<Rightarrow> s | JArr xs \<Rightarrow> repr_of py v | JObj d \<Rightarrow> repr_of py v)"

definition json_int :: "builtins \<Rightarrow> json \<Rightarrow> exn + int" where
  "json_int py v =
     (case v of JNull \<Rightarrow> Inl TypeError | JBool b \<Rightarrow> Inr (if b then 1 else 0)
      | JInt n \<Rightarrow> Inr n
      | JStr s \<Rightarrow> (case int_of_str py s of None \<Rightarrow> Inl ValueError | Some n \<Rightarrow> Inr n)
      | JArr xs \<Rightarrow> Inl TypeError | JObj d \<Rightarrow> Inl TypeError)"

text \<open>
  \<^verbatim>\<open>re.search(r"\{[\s\S]*\}", cleaned)\<close>: the leftmost match starts at the first opening
  brace and the greedy star runs to the last closing brace after it.
\<close>

definition brace_span :: "string \<Rightarrow> string option" where
  "brace_span cleaned =
     (let from_open = dropWhile (\<lambda>c. c \<noteq> CHR ''{'') cleaned
      in if from_open = [] then None
         else (let body = rev (dropWhile (\<lambda>c. c \<noteq> CHR ''}'') (rev (tl from_open)))
               in if body = [] then None else Some (CHR ''{'' # body)))"

definition as_dict :: "json \<Rightarrow> dict option" where
  "as_dict parsed = (case parsed of JObj d \<Rightarrow> Some d | _ \<Rightarrow> None)"

definition extract_json_strong :: "builtins \<Rightarrow> string \<Rightarrow> dict option" where
  "extract_json_strong py raw =
     (if raw = [] then None
      else (let cleaned = strip raw
            in case json_loads py cleaned of
                 Some parsed \<Rightarrow> as_dict parsed
               | None \<Rightarrow>
                   (case brace_span cleaned of
                      None \<Rightarrow> None
                    | Some candidate \<Rightarrow>
                        (case json_loads py candidate of
                           Some parsed \<Rightarrow> as_dict parsed
                         | None \<Rightarrow> None))))"

text \<open>
  The external model. \<open>configured\<close> says whether \<^verbatim>\<open>model\<close> is set; a \<open>model_result\<close> is what
  the worker pool does with the call within the time budget; a response carries its
  \<^verbatim>\<open>.text\<close>, which may raise, be \<^verbatim>\<open>None\<close> or be a string. The prompt only influences the reply, which is an
  input of the model here.
\<close>

datatype response = Response "exn + string option"

datatype model_result = NotSubmitted exn | Returned response | TimedOut | Failed exn

text \<open>
  \<^verbatim>\<open>_generate_content_with_timeout\<close>: handing the call to the worker pool happens outside its
  \<^verbatim>\<open>try\<close>, so an exception there leaves the function; a timeout or an exception of the call
  itself gives \<^verbatim>\<open>None\<close>.
\<close>

definition generate_content_with_timeout ::
  "bool \<Rightarrow> model_result \<Rightarrow> exn + response option" where
  "generate_content_with_timeout configured res =
     (if \<not> configured then Inr None
      else (case res of
              NotSubmitted e \<Rightarrow> Inl e
            | Returned r \<Rightarrow> Inr (Some r)
            | TimedOut \<Rightarrow> Inr None
            | Failed e \<Rightarrow> Inr None))"

text \<open>\<^verbatim>\<open>str(parsed.get(key) or default)\<close>\<close>

definition field_str :: "builtins \<Rightarrow> dict \<Rightarrow> string \<Rightarrow> string \<Rightarrow> string" where
  "field_str py parsed key dflt =
     (case map_of parsed key of
        None \<Rightarrow> dflt
      | Some v \<Rightarrow> if truthy v then json_str py v else dflt)"

definition model_predicted_stars :: "builtins \<Rightarrow> dict \<Rightarrow> int option" where
  "model_predicted_stars py parsed =
     (case map_of parsed ''predicted_stars'' of
        None \<Rightarrow> None
      | Some predicted \<Rightarrow>
          if predicted \<noteq> JNull \<and> predicted \<noteq> JStr [] then
            (case json_int py predicted of
               Inr predicted_int \<Rightarrow>
                 if 1 \<le> predicted_int \<and> predicted_int \<le> 5 then Some predicted_int else None
             | Inl _ \<Rightarrow> None)
          else None)"

text \<open>
  The \<^verbatim>\<open>try\<close> block of \<^verbatim>\<open>generate_ai_pack\<close>, in two parts. First
  \<^verbatim>\<open>raw = (response.text or "").strip() if response else ""\<close>, where reading \<^verbatim>\<open>.text\<close> may
  raise; \<open>Inl\<close> is an exception leaving the block.
\<close>

definition raw_text :: "response option \<Rightarrow> exn + string" where
  "raw_text response =
     (case response of
        None \<Rightarrow> Inr []
      | Some (Response text) \<Rightarrow>
          (case text of
             Inl e \<Rightarrow> Inl e
           | Inr None \<Rightarrow> Inr (strip [])
           | Inr (Some t) \<Rightarrow> Inr (strip t)))"

text \<open>Then the parsing and validation of \<open>raw\<close>, none of which raises.\<close>

definition pack_from_raw ::
  "builtins \<Rightarrow> string \<Rightarrow> pyval \<Rightarrow> string \<Rightarrow> string option \<Rightarrow> ai_pack" where
  "pack_from_raw py raw rating review_text username =
     (let parsed = (case extract_json_strong py raw of None \<Rightarrow> [] | Some d \<Rightarrow> d);
          response_text = strip (field_str py parsed ''ai_response'' []);
          summary = strip (field_str py parsed ''ai_summary'' []);
          actions = strip (field_str py parsed ''ai_recommended_actions'' []);
          explanation = strip (field_str py parsed ''prediction_explanation'' ''AI prediction'');
          stars = (case model_predicted_stars py parsed of
                     Some n \<Rightarrow> Some n
                   | None \<Rightarrow> predict_stars_from_text_heuristic rating review_text)
      in if response_text = [] \<or> summary = [] \<or> actions = [] then
           fallback_ai_pack rating review_text username
         else
           \<lparr> ai_response = response_text,
             ai_summary = summary,
             ai_recommended_actions = actions,
             predicted_stars = stars,
             prediction_explanation = str_or explanation ''AI prediction'' \<rparr>)"

definition generate_body ::
  "builtins \<Rightarrow> bool \<Rightarrow> model_result \<Rightarrow> pyval \<Rightarrow> string \<Rightarrow> string option \<Rightarrow> exn + ai_pack" where
  "generate_body py configured res rating review_text username =
     (case generate_content_with_timeout configured res of
        Inl e \<Rightarrow> Inl e
      | Inr response \<Rightarrow>
          (case raw_text response of
             Inl e \<Rightarrow> Inl e
           | Inr raw \<Rightarrow> Inr (pack_from_raw py raw rating review_text username)))"

definition generate_ai_pack ::
  "builtins \<Rightarrow> bool \<Rightarrow> model_result \<Rightarrow> pyval \<Rightarrow> string \<Rightarrow> string option \<Rightarrow> ai_pack" where
  "generate_ai_pack py configured res rating review_text username =
     (if \<not> configured then fallback_ai_pack rating review_text username
      else (case generate_body py configured res rating review_text username of
              Inr pack \<Rightarrow> pack
            | Inl e \<Rightarrow> fallback_ai_pack rating review_text username))"

section \<open>Submission store\<close>

text \<open>
  The backing file is seen through \<^verbatim>\<open>json.load\<close>: it is missing, it cannot be read or parsed,
  or it holds a JSON value. The store is the file, its modification time, and the two cache
  globals \<^verbatim>\<open>_submissions_cache_mtime\<close> and \<^verbatim>\<open>_submissions_cache_data\<close>.
\<close>

datatype file_state = Missing | Unreadable | Content json

record store =
  data_file :: file_state
  file_mtime :: nat
  cache_mtime :: "nat option"
  cache_data :: "dict list"

text \<open>\<^verbatim>\<open>x.get("timestamp", "")\<close>\<close>

definition timestamp_key :: "dict \<Rightarrow> json" where
  "timestamp_key x = (case map_of x ''timestamp'' of None \<Rightarrow> JStr [] | Some v \<Rightarrow> v)"

definition is_str :: "json \<Rightarrow> bool" where
  "is_str v = (case v of JStr _ \<Rightarrow> True | _ \<Rightarrow> False)"

definition key_string :: "dict \<Rightarrow> string" where
  "key_string x = (case timestamp_key x of JStr t \<Rightarrow> t | _ \<Rightarrow> [])"

text \<open>
  \<^verbatim>\<open>submissions.sort(key=..., reverse=True)\<close> on string keys: descending in the lexicographic
  order of the strings, and stable (records with equal keys keep their order).
\<close>

fun insort_newest :: "dict \<Rightarrow> dict list \<Rightarrow> dict list" where
  "insort_newest x [] = [x]"
| "insort_newest x (y # ys) =
     (if key_string y \<le> key_string x then x # y # ys else y # insort_newest x ys)"

definition sort_newest :: "dict list \<Rightarrow> dict list" where
  "sort_newest xs = foldr insort_newest xs []"

definition py_sort_newest :: "builtins \<Rightarrow> dict list \<Rightarrow> exn + dict list" where
  "py_sort_newest py xs =
     (if length xs \<le> 1 then Inr xs
      else if list_all (\<lambda>x. is_str (timestamp_key x)) xs then Inr (sort_newest xs)
      else (case sort_other py xs of None \<Rightarrow> Inl TypeError | Some ys \<Rightarrow> Inr ys))"

definition submissions_of :: "json \<Rightarrow> json list" where
  "submissions_of raw =
     (case raw of
        JObj d \<Rightarrow> (case map_of d ''submissions'' of Some (JArr xs) \<Rightarrow> xs | _ \<Rightarrow> [])
      | JArr xs \<Rightarrow> xs
      | _ \<Rightarrow> [])"

text \<open>The \<^verbatim>\<open>try\<close> block of \<^verbatim>\<open>_load_submissions_unlocked\<close>.\<close>

definition load_body :: "builtins \<Rightarrow> store \<Rightarrow> exn + (dict list \<times> store)" where
  "load_body py s =
     (case data_file s of
        Missing \<Rightarrow> Inr ([], s)
      | Unreadable \<Rightarrow>
          if cache_mtime s = Some (file_mtime s) then Inr (cache_data s, s)
          else Inl JSONDecodeError
      | Content raw \<Rightarrow>
          if cache_mtime s = Some (file_mtime s) then Inr (cache_data s, s)
          else (case py_sort_newest py (List.map_filter as_dict (submissions_of raw)) of
                  Inl e \<Rightarrow> Inl e
                | Inr submissions \<Rightarrow>
                    Inr (submissions,
                         s\<lparr>cache_mtime := Some (file_mtime s), cache_data := submissions\<rparr>)))"

definition load_submissions :: "builtins \<Rightarrow> store \<Rightarrow> dict list \<times> store" where
  "load_submissions py s = (case load_body py s of Inl e \<Rightarrow> ([], s) | Inr r \<Rightarrow> r)"

text \<open>
  \<^verbatim>\<open>_atomic_write_json\<close>: the environment decides whether the temporary file can be written
  and renamed, and which modification time the new file gets.
\<close>

datatype write_result = WriteFails | WriteOk nat

definition atomic_write_json :: "write_result \<Rightarrow> dict list \<Rightarrow> store \<Rightarrow> exn + store" where
  "atomic_write_json w submissions s =
     (case w of
        WriteFails \<Rightarrow> Inl OSError
      | WriteOk t \<Rightarrow> Inr (s\<lparr>data_file := Content (JArr (map JObj submissions)), file_mtime := t\<rparr>))"

definition save_submission ::
  "builtins \<Rightarrow> write_result \<Rightarrow> store \<Rightarrow> dict \<Rightarrow> dict option \<times> store" where
  "save_submission py w s submission =
     (let (loaded, s1) = load_submissions py s;
          submissions = loaded @ [submission]
      in case atomic_write_json w submissions s1 of
           Inl e \<Rightarrow> (None, s1)
         | Inr s2 \<Rightarrow>
             (Some submission,
              s2\<lparr>cache_mtime := Some (file_mtime s2), cache_data := submissions\<rparr>))"

text \<open>\<^verbatim>\<open>{**s, **updates}\<close>: the keys of \<open>s\<close> in place, new keys appended in the order of \<open>updates\<close>.\<close>

definition dict_merge :: "dict \<Rightarrow> dict \<Rightarrow> dict" where
  "dict_merge s updates = fold (\<lambda>(k, v). AList.update k v) updates s"

text \<open>The \<^verbatim>\<open>for i, s in enumerate(submissions)\<close> loop with its \<^verbatim>\<open>break\<close>.\<close>

fun update_first :: "string \<Rightarrow> dict \<Rightarrow> dict list \<Rightarrow> (dict list \<times> dict) option" where
  "update_first submission_id updates [] = None"
| "update_first submission_id updates (s # ss) =
     (if map_of s ''id'' = Some (JStr submission_id)
      then Some (dict_merge s updates # ss, dict_merge s updates)
      else (case update_first submission_id updates ss of
              None \<Rightarrow> None
            | Some (ss', updated) \<Rightarrow> Some (s # ss', updated)))"

definition update_submission_return ::
  "builtins \<Rightarrow> write_result \<Rightarrow> store \<Rightarrow> string \<Rightarrow> dict \<Rightarrow> dict option \<times> store" where
  "update_submission_return py w s submission_id updates =
     (let (loaded, s1) = load_submissions py s
      in case update_first submission_id updates loaded of
           None \<Rightarrow> (None, s1)
         | Some (submissions, updated) \<Rightarrow>
             (case atomic_write_json w submissions s1 of
                Inl e \<Rightarrow> (None, s1)
              | Inr s2 \<Rightarrow>
                  (Some updated,
                   s2\<lparr>cache_mtime := Some (file_mtime s2), cache_data := submissions\<rparr>)))"

section \<open>Statistics endpoint\<close>

datatype http_error = HTTPException nat


text \<open>The integer a value stands for in \<^verbatim>\<open>+\<close> and \<^verbatim>\<open>==\<close>: booleans count as 0 and 1.\<close>

definition num_value :: "json \<Rightarrow> int option" where
  "num_value v =
     (case v of JInt n \<Rightarrow> Some n | JBool b \<Rightarrow> Some (if b then 1 else 0) | _ \<Rightarrow> None)"







section \<open>Submitting a review\<close>

record datetime =
  year :: nat
  month :: nat
  day :: nat
  hour :: nat
  minute :: nat
  second :: nat
  microsecond :: nat

definition pad :: "nat \<Rightarrow> nat \<Rightarrow> string" where
  "pad width n = replicate (width - length (digits n)) CHR ''0'' @ digits n"

text \<open>\<^verbatim>\<open>strftime('%Y%m%d%H%M%S')\<close>\<close>

definition strftime_compact :: "datetime \<Rightarrow> string" where
  "strftime_compact t =
     pad 4 (year t) @ pad 2 (month t) @ pad 2 (day t) @ pad 2 (hour t) @ pad 2 (minute t)
     @ pad 2 (second t)"

definition isoformat :: "datetime \<Rightarrow> string" where
  "isoformat t =
     pad 4 (year t) @ ''-'' @ pad 2 (month t) @ ''-'' @ pad 2 (day t) @ ''T'' @ pad 2 (hour t)
     @ '':'' @ pad 2 (minute t) @ '':'' @ pad 2 (second t)
     @ (if microsecond t = 0 then [] else ''.'' @ pad 6 (microsecond t))"

text \<open>\<open>draw\<close> is the value of \<^verbatim>\<open>secrets.randbelow(100)\<close>.\<close>

definition submission_id_of :: "datetime \<Rightarrow> nat \<Rightarrow> string" where
  "submission_id_of now draw = ''sub_'' @ strftime_compact now @ ''_'' @ digits draw"

text \<open>
  What one request takes from its environment: the model, the two clock readings, the random
  draw and the outcome of the file write.
\<close>

record request_env =
  model_configured :: bool
  model_reply :: model_result
  id_clock :: datetime
  random_draw :: nat
  stamp_clock :: datetime
  write_outcome :: write_result

definition opt_int_json :: "int option \<Rightarrow> json" where
  "opt_int_json v = (case v of None \<Rightarrow> JNull | Some n \<Rightarrow> JInt n)"

text \<open>
  The request model \<^verbatim>\<open>ReviewSubmission\<close> admits a rating from 1 to 5 and a non-empty text;
  the framework answers anything else with status 422 before the handler runs.
\<close>

definition build_submission :: "builtins \<Rightarrow> request_env \<Rightarrow> int \<Rightarrow> string \<Rightarrow> dict" where
  "build_submission py env rating review_text =
     (let submission_id = submission_id_of (id_clock env) (random_draw env);
          username = None;
          pack = generate_ai_pack py (model_configured env) (model_reply env)
                   (PyInt rating) review_text username
      in [(''id'', JStr submission_id),
          (''rating'', JInt rating),
          (''review_text'', JStr review_text),
          (''user_id'', JNull),
          (''username'', JNull),
          (''ai_response'', JStr (ai_response pack)),
          (''ai_summary'', JStr (ai_summary pack)),
          (''ai_recommended_actions'', JStr (ai_recommended_actions pack)),
          (''predicted_stars'', opt_int_json (predicted_stars pack)),
          (''prediction_explanation'', JStr (prediction_explanation pack)),
          (''timestamp'', JStr (isoformat (stamp_clock env))),
          (''status'', JStr ''completed'')])"

definition submit_review ::
  "builtins \<Rightarrow> request_env \<Rightarrow> store \<Rightarrow> int \<Rightarrow> string \<Rightarrow> (http_error + dict) \<times> store" where
  "submit_review py env s rating review_text =
     (if \<not> (1 \<le> rating \<and> rating \<le> 5) \<or> length review_text < 1 then
        (Inl (HTTPException 422), s)
      else
        (let submission = build_submission py env rating review_text
         in case save_submission py (write_outcome env) s submission of
              (None, s') \<Rightarrow> (Inl (HTTPException 500), s')
            | (Some saved, s') \<Rightarrow> (Inr submission, s')))"

section \<open>Auxiliary notions for the statements\<close>

text \<open>A word: a non-empty string without whitespace.\<close>

definition word_ok :: "string \<Rightarrow> bool" where
  "word_ok w = (w \<noteq> [] \<and> list_all (\<lambda>c. \<not> isspace c) w)"

text \<open>What the summary shows for a list of words \<open>ws\<close>, given the text used when there are none.\<close>

definition shown_snippet :: "string list \<Rightarrow> string \<Rightarrow> string" where
  "shown_snippet ws placeholder =
     (if ws = [] then placeholder
      else if ends_terminal (join '' '' ws) then join '' '' ws
      else join '' '' ws @ ''...'')"

text \<open>The test of the update loop: \<^verbatim>\<open>s.get("id") == submission_id\<close>.\<close>

definition has_id :: "string \<Rightarrow> dict \<Rightarrow> bool" where
  "has_id submission_id r = (map_of r ''id'' = Some (JStr submission_id))"

text \<open>The number a record's rating stands for, if the record has a rating and it is a number.\<close>

definition rating_num :: "dict \<Rightarrow> int option" where
  "rating_num r = (case map_of r ''rating'' of None \<Rightarrow> None | Some v \<Rightarrow> num_value v)"



text \<open>
  A clock reading as \<^verbatim>\<open>datetime.now()\<close> gives it, with a year of four digits.
\<close>

definition valid_clock :: "datetime \<Rightarrow> bool" where
  "valid_clock t =
     (1000 \<le> year t \<and> year t \<le> 9999 \<and> 1 \<le> month t \<and> month t \<le> 12 \<and> 1 \<le> day t \<and> day t \<le> 31
      \<and> hour t \<le> 23 \<and> minute t \<le> 59 \<and> second t \<le> 59 \<and> microsecond t \<le> 999999)"

text \<open>Two clock readings within the same second.\<close>

definition same_second :: "datetime \<Rightarrow> datetime \<Rightarrow> bool" where
  "same_second a b =
     (year a = year b \<and> month a = month b \<and> day a = day b \<and> hour a = hour b
      \<and> minute a = minute b \<and> second a = second b)"

section \<open>Sample environment\<close>

text \<open>
  A stand-in for the library functions, used where a property is evaluated on concrete data.
  \<open>sample_loads\<close> agrees with \<^verbatim>\<open>json.loads\<close> on the two documents it knows and rejects every
  other string.
\<close>

definition sample_loads :: "string \<Rightarrow> json option" where
  "sample_loads s =
     (if s = ''[{}]'' then Some (JArr [JObj []])
      else if s = ''{}'' then Some (JObj [])
      else None)"

definition sample_repr :: "json \<Rightarrow> string" where
  "sample_repr v = ''[...]''"

definition sample_int_of_str :: "string \<Rightarrow> int option" where
  "sample_int_of_str s = None"

definition sample_sort_other :: "dict list \<Rightarrow> dict list option" where
  "sample_sort_other xs = None"

definition sample_builtins :: builtins where
  "sample_builtins =
     \<lparr> json_loads = sample_loads, repr_of = sample_repr, int_of_str = sample_int_of_str,
       sort_other = sample_sort_other \<rparr>"

text \<open>Two records and stores built from them, for the evaluations below.\<close>

definition older_record :: dict where
  "older_record = [(''id'', JStr ''a''), (''timestamp'', JStr ''2024-01-01T00:00:00'')]"

definition newer_record :: dict where
  "newer_record = [(''id'', JStr ''b''), (''timestamp'', JStr ''2024-01-02T00:00:00'')]"

definition cold_store :: "file_state \<Rightarrow> store" where
  "cold_store f = \<lparr> data_file = f, file_mtime = 1, cache_mtime = None, cache_data = [] \<rparr>"

definition one_record_store :: store where
  "one_record_store = cold_store (Content (JArr [JObj older_record]))"

definition mark_failed :: dict where
  "mark_failed = [(''status'', JStr ''failed'')]"






definition noon :: datetime where
  "noon = \<lparr> year = 2024, month = 1, day = 1, hour = 12, minute = 0, second = 0,
            microsecond = 0 \<rparr>"

definition sample_env :: "nat \<Rightarrow> request_env" where
  "sample_env t =
     \<lparr> model_configured = False, model_reply = TimedOut, id_clock = noon, random_draw = 7,
       stamp_clock = noon, write_outcome = WriteOk t \<rparr>"

definition after_two_submits :: store where
  "after_two_submits =
     snd (submit_review sample_builtins (sample_env 3)
            (snd (submit_review sample_builtins (sample_env 2) (cold_store (Content (JArr [])))
                    5 ''Great''))
            1 ''Bad'')"

section \<open>Properties of the string functions\<close>

lemma strip_empty_iff: "strip s = [] \<longleftrightarrow> (\<forall>c \<in> set s. isspace c)"
proof
  assume "strip s = []"
  then have "dropWhile isspace (rev (dropWhile isspace s)) = []"
    by (simp add: strip_def rstrip_def lstrip_def)
  then have "\<forall>c \<in> set (dropWhile isspace s). isspace c"
    by simp
  then have "dropWhile isspace s = []"
    by (metis dropWhile_eq_Nil_conv hd_dropWhile hd_in_set)
  then show "\<forall>c \<in> set s. isspace c"
    by simp
next
  assume "\<forall>c \<in> set s. isspace c"
  then have eq: "dropWhile isspace s = []"
    by simp
  show "strip s = []"
    by (simp add: strip_def rstrip_def lstrip_def eq)
qed

lemma startswith_hd: "startswith t (c # w) \<Longrightarrow> t \<noteq> [] \<and> hd t = c"
  by (cases t) auto

lemma py_in_first_char: "py_in (c # w) t \<Longrightarrow> c \<in> set t"
proof (induction t)
  case Nil
  then show ?case by simp
next
  case (Cons a t)
  then show ?case by (auto dest: startswith_hd)
qed

lemma blank_no_keyword:
  assumes "strip t = []" and "\<not> isspace c"
  shows "\<not> py_in (c # w) t"
  using assms py_in_first_char strip_empty_iff by blast

lemma blank_keyword_score:
  assumes "strip t = []"
  shows "keyword_score t = 0"
proof -
  have nk: "\<And>c w. \<not> isspace c \<Longrightarrow> \<not> py_in (c # w) t"
    using assms blank_no_keyword by blast
  show ?thesis
    by (simp add: keyword_score_def add_hits_def strong_pos_def soft_pos_def strong_neg_def
        soft_neg_def nk isspace_def)
qed

lemma isspace_lower_char: "isspace (lower_char c) = isspace c"
proof -
  define n where "n = (of_char c :: nat)"
  have c: "c = char_of n"
    by (simp add: n_def)
  have "n < 256"
    unfolding n_def by (rule nat_of_char_less_256)
  then show ?thesis
    unfolding c by (auto simp: isspace_def lower_char_def Let_def)
qed

lemma blank_lower:
  assumes "list_all isspace text"
  shows "strip (lower text) = []"
  using assms by (simp add: strip_empty_iff lower_def isspace_lower_char list_all_iff)

section \<open>Claims about the sentiment heuristic\<close>

text \<open>
  C5: for every rating \<open>r\<close> in [1,5] and empty or whitespace-only text the heuristic returns
  \<open>r\<close> itself, without keyword scoring; with such a text, a rating that is out of range or
  that \<^verbatim>\<open>int(...)\<close> cannot convert gives \<^verbatim>\<open>None\<close>.
\<close>

theorem heuristic_blank_text:
  assumes "list_all isspace text"
  shows "predict_stars_from_text_heuristic (PyInt r) text =
           (if 1 \<le> r \<and> r \<le> 5 then Some r else None)
         \<and> predict_stars_from_text_heuristic PyNone text = None"
  using blank_lower [OF assms]
  by (simp add: predict_stars_from_text_heuristic_def py_int_def)

theorem heuristic_blank_text_witness:
  "list_all isspace '' '' \<and> list_all isspace []
   \<and> predict_stars_from_text_heuristic (PyInt 4) '' '' = Some 4
   \<and> predict_stars_from_text_heuristic (PyInt 1) [] = Some 1
   \<and> predict_stars_from_text_heuristic (PyInt 6) '' '' = None
   \<and> predict_stars_from_text_heuristic PyNone '' '' = None"
proof -
  have a: "list_all isspace '' ''"
    by (simp add: isspace_def)
  have b: "list_all isspace []"
    by simp
  show ?thesis
    using a b heuristic_blank_text [OF a, of 4] heuristic_blank_text [OF a, of 6]
      heuristic_blank_text [OF b, of 1]
    by simp
qed

text \<open>
  C6: whatever the rating, a text whose accumulated keyword score is at most -2 is scored 1,
  and a text whose accumulated score is at least 4 is scored 5. (A text with such a score is
  never blank, so the keyword table is always reached.)
\<close>

theorem heuristic_extreme_scores:
  "(keyword_score (lower text) \<le> - 2 \<longrightarrow>
      predict_stars_from_text_heuristic rating text = Some 1)
   \<and> (keyword_score (lower text) \<ge> 4 \<longrightarrow>
      predict_stars_from_text_heuristic rating text = Some 5)"
proof (cases "strip (lower text) = []")
  case True
  then have "keyword_score (lower text) = 0"
    by (rule blank_keyword_score)
  then show ?thesis by simp
next
  case False
  then show ?thesis
    by (simp add: predict_stars_from_text_heuristic_def Let_def)
qed

theorem heuristic_extreme_scores_witness:
  "keyword_score (lower ''Terrible and awful'') \<le> - 2
   \<and> predict_stars_from_text_heuristic (PyInt 5) ''Terrible and awful'' = Some 1
   \<and> keyword_score (lower ''Amazing, excellent!'') \<ge> 4
   \<and> predict_stars_from_text_heuristic (PyInt 1) ''Amazing, excellent!'' = Some 5"
proof -
  have a: "keyword_score (lower ''Terrible and awful'') = - 4"
    by code_simp
  have b: "keyword_score (lower ''Amazing, excellent!'') = 4"
    by code_simp
  show ?thesis
    using heuristic_extreme_scores [of "''Terrible and awful''" "PyInt 5"]
      heuristic_extreme_scores [of "''Amazing, excellent!''" "PyInt 1"]
    by (simp add: a b)
qed

section \<open>Claims about the pack generator\<close>

lemma instant_ai_pack_nonempty:
  "ai_response (instant_ai_pack rating text username) \<noteq> []
   \<and> ai_summary (instant_ai_pack rating text username) \<noteq> []
   \<and> ai_recommended_actions (instant_ai_pack rating text username) \<noteq> []"
  by (simp add: instant_ai_pack_def Let_def actions_negative_def actions_mixed_def
      actions_positive_def)

lemma pack_from_raw_nonempty:
  "ai_response (pack_from_raw py raw rating text username) \<noteq> []
   \<and> ai_summary (pack_from_raw py raw rating text username) \<noteq> []
   \<and> ai_recommended_actions (pack_from_raw py raw rating text username) \<noteq> []"
  using instant_ai_pack_nonempty [of rating "text" username]
  by (simp add: pack_from_raw_def Let_def fallback_ai_pack_def)

lemma generate_body_nonempty:
  assumes "generate_body py configured res rating text username = Inr pack"
  shows "ai_response pack \<noteq> [] \<and> ai_summary pack \<noteq> [] \<and> ai_recommended_actions pack \<noteq> []"
proof -
  obtain raw where "pack = pack_from_raw py raw rating text username"
    using assms by (auto simp: generate_body_def split: sum.splits)
  then show ?thesis
    using pack_from_raw_nonempty [of py raw rating "text" username] by simp
qed

text \<open>
  C2: for every rating, review text and optional user name, with or without a configured
  model and whatever becomes of the model call (a reply, a reply whose text cannot be read,
  a timeout, an error, a call the worker pool refuses), \<open>generate_ai_pack\<close> returns a pack (every exception of its
  \<^verbatim>\<open>try\<close> block ends in the fallback pack) whose \<open>ai_response\<close>, \<open>ai_summary\<close> and
  \<open>ai_recommended_actions\<close> are all non-empty.
\<close>

theorem generate_ai_pack_complete:
  "ai_response (generate_ai_pack py configured res rating text username) \<noteq> []
   \<and> ai_summary (generate_ai_pack py configured res rating text username) \<noteq> []
   \<and> ai_recommended_actions (generate_ai_pack py configured res rating text username) \<noteq> []"
proof (cases "configured")
  case False
  then show ?thesis
    using instant_ai_pack_nonempty [of rating "text" username]
    by (simp add: generate_ai_pack_def fallback_ai_pack_def)
next
  case True
  show ?thesis
  proof (cases "generate_body py configured res rating text username")
    case (Inl e)
    then show ?thesis
      using True instant_ai_pack_nonempty [of rating "text" username]
      by (simp add: generate_ai_pack_def fallback_ai_pack_def)
  next
    case (Inr pack)
    then show ?thesis
      using True generate_body_nonempty [OF Inr]
      by (simp add: generate_ai_pack_def)
  qed
qed

section \<open>Claims about JSON extraction\<close>

lemma brace_span_Some:
  assumes "brace_span s = Some c"
  shows "\<exists>pre post. s = pre @ c @ post \<and> CHR ''{'' \<notin> set pre \<and> CHR ''}'' \<notin> set post
           \<and> hd c = CHR ''{'' \<and> last c = CHR ''}'' \<and> 2 \<le> length c"
proof -
  define from_open where "from_open = dropWhile (\<lambda>c. c \<noteq> CHR ''{'') s"
  define pre where "pre = takeWhile (\<lambda>c. c \<noteq> CHR ''{'') s"
  define t where "t = tl from_open"
  define body where "body = rev (dropWhile (\<lambda>c. c \<noteq> CHR ''}'') (rev t))"
  define post where "post = rev (takeWhile (\<lambda>c. c \<noteq> CHR ''}'') (rev t))"
  have ne: "from_open \<noteq> []" and bne: "body \<noteq> []" and c: "c = CHR ''{'' # body"
    using assms
    by (auto simp: brace_span_def Let_def from_open_def body_def t_def split: if_splits)
  have "hd from_open = CHR ''{''"
    using ne hd_dropWhile [of "\<lambda>c. c \<noteq> CHR ''{''" s] by (simp add: from_open_def)
  then have fo: "from_open = CHR ''{'' # t"
    using ne by (cases from_open) (simp_all add: t_def)
  have s: "s = pre @ from_open"
    by (simp add: pre_def from_open_def)
  have "rev (body @ post) = rev t"
    by (simp add: body_def post_def)
  then have "body @ post = t"
    by (simp only: rev_is_rev_conv)
  then have t: "t = body @ post"
    by (rule sym)
  have p1: "CHR ''{'' \<notin> set pre"
    unfolding pre_def by (auto dest: set_takeWhileD)
  have p2: "CHR ''}'' \<notin> set post"
    unfolding post_def by (auto dest: set_takeWhileD)
  have "dropWhile (\<lambda>c. c \<noteq> CHR ''}'') (rev t) \<noteq> []"
    using bne by (simp add: body_def)
  then have "hd (dropWhile (\<lambda>c. c \<noteq> CHR ''}'') (rev t)) = CHR ''}''"
    using hd_dropWhile [of "\<lambda>c. c \<noteq> CHR ''}''" "rev t"] by simp
  then have l: "last body = CHR ''}''"
    using bne by (simp add: body_def last_rev)
  have "s = pre @ c @ post"
    using s fo t c by simp
  moreover have "hd c = CHR ''{''"
    by (simp add: c)
  moreover have "last c = CHR ''}''"
    using l bne by (simp add: c)
  moreover have "2 \<le> length c"
    using bne by (cases body) (simp_all add: c)
  ultimately show ?thesis
    using p1 p2 by blast
qed

lemma brace_span_None:
  assumes "brace_span s = None"
  shows "\<not> (\<exists>pre mid post. s = pre @ [CHR ''{''] @ mid @ [CHR ''}''] @ post)"
proof
  assume "\<exists>pre mid post. s = pre @ [CHR ''{''] @ mid @ [CHR ''}''] @ post"
  then obtain pre mid post where s: "s = pre @ CHR ''{'' # mid @ CHR ''}'' # post"
    by auto
  define from_open where "from_open = dropWhile (\<lambda>c. c \<noteq> CHR ''{'') s"
  have "from_open \<noteq> [] \<and> CHR ''}'' \<in> set (tl from_open)"
  proof (cases "\<forall>x \<in> set pre. x \<noteq> CHR ''{''")
    case True
    then have "from_open = CHR ''{'' # mid @ CHR ''}'' # post"
      by (simp add: from_open_def s dropWhile_append)
    then show ?thesis by simp
  next
    case False
    then have ne: "dropWhile (\<lambda>c. c \<noteq> CHR ''{'') pre \<noteq> []"
      by simp
    from False have "from_open = dropWhile (\<lambda>c. c \<noteq> CHR ''{'') pre @ CHR ''{'' # mid @ CHR ''}'' # post"
      by (simp add: from_open_def s dropWhile_append)
    then show ?thesis
      using ne by simp
  qed
  then have "brace_span s \<noteq> None"
    by (simp add: brace_span_def Let_def from_open_def)
  with assms show False by simp
qed

text \<open>
  C10: when the stripped input parses in full and the top-level value is not an object (an
  array, even one that contains objects), \<open>extract_json_strong\<close> returns \<open>None\<close>, whatever
  the brace-delimited substring would parse to. The substring is parsed only when the full
  parse fails; it is the span from the first opening brace to the last closing brace of the
  stripped string, and there is no fallback parse when no closing brace follows an opening one.
\<close>

theorem extract_json_strong_paths:
  "(json_loads py (strip raw) = Some v \<and> (\<forall>d. v \<noteq> JObj d) \<longrightarrow>
      extract_json_strong py raw = None)
   \<and> (raw \<noteq> [] \<and> json_loads py (strip raw) = None \<longrightarrow>
      extract_json_strong py raw =
        (case brace_span (strip raw) of
           None \<Rightarrow> None
         | Some candidate \<Rightarrow>
             (case json_loads py candidate of Some parsed \<Rightarrow> as_dict parsed | None \<Rightarrow> None)))
   \<and> (brace_span (strip raw) = Some candidate \<longrightarrow>
      (\<exists>pre post. strip raw = pre @ candidate @ post
         \<and> CHR ''{'' \<notin> set pre \<and> CHR ''}'' \<notin> set post
         \<and> hd candidate = CHR ''{'' \<and> last candidate = CHR ''}'' \<and> 2 \<le> length candidate))
   \<and> (brace_span (strip raw) = None \<longrightarrow>
      \<not> (\<exists>pre mid post. strip raw = pre @ [CHR ''{''] @ mid @ [CHR ''}''] @ post))"
proof (intro conjI impI)
  assume "json_loads py (strip raw) = Some v \<and> (\<forall>d. v \<noteq> JObj d)"
  then show "extract_json_strong py raw = None"
    by (cases v) (simp_all add: extract_json_strong_def as_dict_def Let_def)
next
  assume "raw \<noteq> [] \<and> json_loads py (strip raw) = None"
  then show "extract_json_strong py raw =
        (case brace_span (strip raw) of
           None \<Rightarrow> None
         | Some candidate \<Rightarrow>
             (case json_loads py candidate of Some parsed \<Rightarrow> as_dict parsed | None \<Rightarrow> None))"
    by (simp add: extract_json_strong_def Let_def)
next
  assume "brace_span (strip raw) = Some candidate"
  then show "\<exists>pre post. strip raw = pre @ candidate @ post
         \<and> CHR ''{'' \<notin> set pre \<and> CHR ''}'' \<notin> set post
         \<and> hd candidate = CHR ''{'' \<and> last candidate = CHR ''}'' \<and> 2 \<le> length candidate"
    by (rule brace_span_Some)
next
  assume "brace_span (strip raw) = None"
  then show "\<not> (\<exists>pre mid post. strip raw = pre @ [CHR ''{''] @ mid @ [CHR ''}''] @ post)"
    by (rule brace_span_None)
qed

theorem extract_json_strong_paths_witness:
  "json_loads sample_builtins (strip ''[{}]'') = Some (JArr [JObj []])
   \<and> brace_span (strip ''[{}]'') = Some ''{}''
   \<and> extract_json_strong sample_builtins ''[{}]'' = None
   \<and> json_loads sample_builtins (strip ''ok {} }'') = None
   \<and> extract_json_strong sample_builtins ''ok {} }'' = None
   \<and> brace_span (strip ''ok {} }'') = Some ''{} }''
   \<and> brace_span (strip ''} {'') = None"
proof -
  have a: "strip ''[{}]'' = ''[{}]''" "strip ''ok {} }'' = ''ok {} }''" "strip ''} {'' = ''} {''"
    by (simp_all add: strip_def lstrip_def rstrip_def isspace_def)
  have b: "brace_span ''[{}]'' = Some ''{}''" "brace_span ''ok {} }'' = Some ''{} }''"
    "brace_span ''} {'' = None"
    by (simp_all add: brace_span_def)
  have l: "json_loads sample_builtins ''[{}]'' = Some (JArr [JObj []])"
    "json_loads sample_builtins ''ok {} }'' = None"
    "json_loads sample_builtins ''{} }'' = None"
    by (simp_all add: sample_builtins_def sample_loads_def)
  show ?thesis
    using extract_json_strong_paths [of sample_builtins "''[{}]''" "JArr [JObj []]" "''{}''"]
      extract_json_strong_paths [of sample_builtins "''ok {} }''" "JNull" "''{} }''"]
      extract_json_strong_paths [of sample_builtins "''} {''" "JNull" "''{}''"]
    by (simp add: a b l)
qed

section \<open>Claims about the snippet of the instant pack\<close>

lemma split_from_words:
  "list_all (\<lambda>c. \<not> isspace c) cur \<Longrightarrow> list_all word_ok (split_from cur s)"
proof (induction s arbitrary: cur)
  case Nil
  then show ?case by (simp add: word_ok_def)
next
  case (Cons c s)
  show ?case
  proof (cases "isspace c")
    case True
    then show ?thesis
      using Cons.prems Cons.IH [of "[]"] by (simp add: word_ok_def)
  next
    case False
    then show ?thesis
      using Cons.prems Cons.IH [of "cur @ [c]"] by simp
  qed
qed

lemma snippet_words_ok: "list_all word_ok (snippet_words review)"
proof -
  have "list_all word_ok (split (strip review))"
    unfolding split_def by (rule split_from_words) simp
  then show ?thesis
    by (auto simp: snippet_words_def list_all_iff dest: in_set_takeD)
qed

lemma split_from_word:
  "list_all (\<lambda>c. \<not> isspace c) w \<Longrightarrow> split_from cur (w @ s) = split_from (cur @ w) s"
  by (induction w arbitrary: cur) simp_all

lemma split_join:
  "list_all word_ok ws \<Longrightarrow> split (join '' '' ws) = ws"
proof (induction "'' ''" ws rule: join.induct)
  case 1
  then show ?case by (simp add: split_def)
next
  case (2 w)
  then have "split_from [] (w @ []) = split_from ([] @ w) []"
    by (intro split_from_word) (simp add: word_ok_def)
  then show ?case
    using 2 by (simp add: split_def word_ok_def)
next
  case (3 w v ws)
  from 3 have w: "w \<noteq> []" "list_all (\<lambda>c. \<not> isspace c) w"
    by (simp_all add: word_ok_def)
  have "split_from [] (w @ '' '' @ join '' '' (v # ws)) = split_from ([] @ w) ('' '' @ join '' '' (v # ws))"
    using w by (intro split_from_word)
  also have "\<dots> = w # split_from [] (join '' '' (v # ws))"
    using w by (simp add: isspace_def)
  finally show ?case
    using 3 by (simp add: split_def)
qed

lemma join_ends:
  "list_all word_ok ws \<Longrightarrow> ws \<noteq> [] \<Longrightarrow>
     join sep ws \<noteq> [] \<and> hd (join sep ws) = hd (hd ws) \<and> last (join sep ws) = last (last ws)"
  by (induction sep ws rule: join.induct) (auto simp: word_ok_def)

lemma strip_id:
  assumes "s \<noteq> []" "\<not> isspace (hd s)" "\<not> isspace (last s)"
  shows "strip s = s"
proof -
  have a: "dropWhile isspace s = s"
    using assms by (cases s) simp_all
  have "dropWhile isspace (rev s) = rev s"
    using assms by (cases "rev s") (simp_all add: last_rev [symmetric] hd_rev)
  then show ?thesis
    by (simp add: strip_def lstrip_def rstrip_def a)
qed

lemma word_ok_ends: "word_ok w \<Longrightarrow> \<not> isspace (hd w) \<and> \<not> isspace (last w)"
  by (auto simp: word_ok_def list_all_iff)

lemma strip_join_words:
  assumes "list_all word_ok ws"
  shows "strip (join '' '' ws) = join '' '' ws"
proof (cases "ws = []")
  case True
  then show ?thesis
    by (simp add: strip_def lstrip_def rstrip_def)
next
  case False
  have "word_ok (hd ws)" "word_ok (last ws)"
    using assms False by (auto simp: list_all_iff)
  then show ?thesis
    using join_ends [OF assms False, of "'' ''"] word_ok_ends
    by (intro strip_id) auto
qed

lemma snippet_of_eq:
  "snippet_of review =
     (if snippet_words review = [] then []
      else if ends_terminal (join '' '' (snippet_words review)) then join '' '' (snippet_words review)
      else join '' '' (snippet_words review) @ ''...'')"
proof (cases "snippet_words review = []")
  case True
  then show ?thesis
    by (simp add: snippet_of_def strip_def lstrip_def rstrip_def)
next
  case False
  then show ?thesis
    using join_ends [OF snippet_words_ok False, of "'' ''"]
    by (simp add: snippet_of_def Let_def strip_join_words [OF snippet_words_ok])
qed

text \<open>
  C7, as the code has it: the summary of the instant pack ends with the snippet between
  double asterisks. The snippet is made of the first eighteen words of the review text at most,
  joined by single spaces (splitting it again gives those words back). Three dots are appended
  exactly when the snippet is non-empty and does not end in \<open>.\<close>, \<open>!\<close> or \<open>?\<close>, whether or not
  words were cut off; a review without words shows a fixed placeholder instead.
\<close>

theorem instant_summary_snippet:
  "\<exists>label placeholder.
     ai_summary (instant_ai_pack rating review username) =
       ''Customer gave a '' @ py_str rating @ ''-star rating and the review '' @ label @ ''**''
       @ shown_snippet (snippet_words review) placeholder @ ''**.''
     \<and> placeholder \<noteq> []
     \<and> snippet_words review = take 18 (split (strip review))
     \<and> length (snippet_words review) \<le> 18
     \<and> split (join '' '' (snippet_words review)) = snippet_words review"
proof -
  let ?ws = "snippet_words review"
  have ws: "?ws = take 18 (split (strip review)) \<and> length ?ws \<le> 18
            \<and> split (join '' '' ?ws) = ?ws"
    using split_join [OF snippet_words_ok, of review] by (simp add: snippet_words_def)
  have or_eq: "\<And>p. p \<noteq> [] \<Longrightarrow> str_or (snippet_of review) p = shown_snippet ?ws p"
    using join_ends [OF snippet_words_ok, of review "'' ''"]
    by (auto simp: snippet_of_eq shown_snippet_def str_or_def)
  consider (low) "effective_rating_of rating review \<le> 2"
    | (mid) "effective_rating_of rating review = 3"
    | (high) "\<not> effective_rating_of rating review \<le> 2" "effective_rating_of rating review \<noteq> 3"
    by blast
  then show ?thesis
  proof cases
    case low
    have "ai_summary (instant_ai_pack rating review username) =
        ''Customer gave a '' @ py_str rating @ ''-star rating and the review ''
        @ ''feels **negative**. Key issue described: '' @ ''**''
        @ shown_snippet ?ws ''no clear details provided'' @ ''**.''"
      using low or_eq [of "''no clear details provided''"]
      by (simp add: instant_ai_pack_def Let_def)
    then show ?thesis
      using ws by blast
  next
    case mid
    have "ai_summary (instant_ai_pack rating review username) =
        ''Customer gave a '' @ py_str rating @ ''-star rating and the review ''
        @ ''sounds **mixed/neutral**. Main points: '' @ ''**''
        @ shown_snippet ?ws ''no clear details provided'' @ ''**.''"
      using mid or_eq [of "''no clear details provided''"]
      by (simp add: instant_ai_pack_def Let_def)
    then show ?thesis
      using ws by blast
  next
    case high
    have "ai_summary (instant_ai_pack rating review username) =
        ''Customer gave a '' @ py_str rating @ ''-star rating and the review ''
        @ ''feels **positive**. Key praise: '' @ ''**''
        @ shown_snippet ?ws ''no extra details provided'' @ ''**.''"
      using high or_eq [of "''no extra details provided''"]
      by (simp add: instant_ai_pack_def Let_def)
    then show ?thesis
      using ws by blast
  qed
qed

text \<open>
  The review \<open>Good food\<close> has two words, so nothing is cut off, and it does not end in
  terminal punctuation: its snippet is shown with three dots appended.
\<close>

theorem snippet_ellipsis_counterexample:
  "split (strip ''Good food'') = [''Good'', ''food'']
   \<and> snippet_words ''Good food'' = split (strip ''Good food'')
   \<and> snippet_of ''Good food'' = ''Good food...''
   \<and> ai_summary (instant_ai_pack (PyInt 4) ''Good food'' None) =
       ''Customer gave a 4-star rating and the review feels **positive**. Key praise: **Good food...**.''"
proof -
  have a: "strip ''Good food'' = ''Good food''"
    by (simp add: strip_def lstrip_def rstrip_def isspace_def)
  have b: "split ''Good food'' = [''Good'', ''food'']"
    by (simp add: split_def isspace_def)
  have c: "snippet_words ''Good food'' = [''Good'', ''food'']"
    by (simp add: snippet_words_def a b)
  have d: "snippet_of ''Good food'' = ''Good food...''"
    by (simp add: snippet_of_eq c ends_terminal_def endswith_def)
  have e: "keyword_score (lower ''Good food'') = 1"
    by code_simp
  have f: "strip (lower ''Good food'') \<noteq> []"
    by code_simp
  have g: "effective_rating_of (PyInt 4) ''Good food'' = 4"
    using e f
    by (simp add: effective_rating_of_def predict_stars_from_text_heuristic_def Let_def
        base_rating_def py_int_def)
  have h: "py_str (PyInt 4) = ''4''"
    by code_simp
  show ?thesis
    by (simp add: a b c d g h instant_ai_pack_def Let_def str_or_def)
qed

section \<open>Claims about reading the store\<close>

lemma load_submissions_idem:
  "fst (load_submissions py (snd (load_submissions py s))) = fst (load_submissions py s)"
  by (cases "data_file s")
     (auto simp: load_submissions_def load_body_def split: sum.splits)

lemma load_submissions_file:
  "data_file (snd (load_submissions py s)) = data_file s
   \<and> file_mtime (snd (load_submissions py s)) = file_mtime s"
  by (cases "data_file s")
     (auto simp: load_submissions_def load_body_def split: sum.splits)



section \<open>Claims about appending\<close>

lemma save_submission_ok:
  assumes "save_submission py (WriteOk t) s x = (r, s')"
  shows "r = Some x
         \<and> load_submissions py s' = (fst (load_submissions py s) @ [x], s')"
proof -
  obtain xs s1 where l: "load_submissions py s = (xs, s1)"
    by (cases "load_submissions py s")
  have s': "s' = s1\<lparr>data_file := Content (JArr (map JObj (xs @ [x]))), file_mtime := t,
                     cache_mtime := Some t, cache_data := xs @ [x]\<rparr>" and r: "r = Some x"
    using assms l by (auto simp: save_submission_def atomic_write_json_def)
  have "load_submissions py s' = (xs @ [x], s')"
    by (simp add: s' load_submissions_def load_body_def)
  then show ?thesis
    using r l by simp
qed

text \<open>
  C1 at a concrete store: the file holds one record stamped 2024-01-01; a record stamped
  2024-01-02 is appended and the write succeeds. The next read is served from the cache and
  lists the new record last, after the older one. Reading the same file afresh (with the
  cache dropped) sorts it and lists the new record first.
\<close>

theorem save_then_load_order:
  "fst (save_submission sample_builtins (WriteOk 2) one_record_store newer_record) =
     Some newer_record
   \<and> fst (load_submissions sample_builtins
           (snd (save_submission sample_builtins (WriteOk 2) one_record_store newer_record))) =
     [older_record, newer_record]
   \<and> fst (load_submissions sample_builtins
           ((snd (save_submission sample_builtins (WriteOk 2) one_record_store newer_record))
              \<lparr>cache_mtime := None\<rparr>)) =
     [newer_record, older_record]"
proof -
  have l: "load_submissions sample_builtins one_record_store =
      ([older_record], one_record_store\<lparr>cache_mtime := Some 1, cache_data := [older_record]\<rparr>)"
    by (simp add: load_submissions_def load_body_def one_record_store_def cold_store_def
        submissions_of_def List.map_filter_simps as_dict_def py_sort_newest_def)
  have s: "save_submission sample_builtins (WriteOk 2) one_record_store newer_record =
      (Some newer_record,
       \<lparr> data_file = Content (JArr [JObj older_record, JObj newer_record]), file_mtime = 2,
         cache_mtime = Some 2, cache_data = [older_record, newer_record] \<rparr>)"
    unfolding save_submission_def l
    by (simp add: atomic_write_json_def one_record_store_def cold_store_def)
  have k: "key_string older_record = ''2024-01-01T00:00:00''"
    "key_string newer_record = ''2024-01-02T00:00:00''"
    "is_str (timestamp_key older_record)" "is_str (timestamp_key newer_record)"
    by (simp_all add: key_string_def timestamp_key_def older_record_def newer_record_def is_str_def)
  have o: "sort_newest [older_record, newer_record] = [newer_record, older_record]"
    by (simp add: sort_newest_def k)
  show ?thesis
    by (simp add: s load_submissions_def load_body_def submissions_of_def
        List.map_filter_simps as_dict_def py_sort_newest_def k o)
qed

section \<open>Claims about updating\<close>

lemma map_of_dict_merge_other:
  "k \<notin> fst ` set updates \<Longrightarrow> map_of (dict_merge r updates) k = map_of r k"
proof (induction updates arbitrary: r)
  case Nil
  then show ?case by (simp add: dict_merge_def)
next
  case (Cons u updates)
  obtain k' v' where u: "u = (k', v')"
    by (cases u)
  have "dict_merge r (u # updates) = dict_merge (AList.update k' v' r) updates"
    by (simp add: dict_merge_def u)
  then show ?case
    using Cons u by (simp add: update_conv')
qed

lemma map_of_dict_merge_named:
  "distinct (map fst updates) \<Longrightarrow> (k, v) \<in> set updates \<Longrightarrow>
     map_of (dict_merge r updates) k = Some v"
proof (induction updates arbitrary: r)
  case Nil
  then show ?case by simp
next
  case (Cons u updates)
  obtain k' v' where u: "u = (k', v')"
    by (cases u)
  have step: "dict_merge r (u # updates) = dict_merge (AList.update k' v' r) updates"
    by (simp add: dict_merge_def u)
  show ?case
  proof (cases "(k, v) \<in> set updates")
    case True
    then show ?thesis
      using Cons step by simp
  next
    case False
    then have kv: "k = k'" "v = v'"
      using Cons.prems u by auto
    have "k' \<notin> fst ` set updates"
      using Cons.prems u by auto
    then have "map_of (dict_merge (AList.update k' v' r) updates) k' =
               map_of (AList.update k' v' r) k'"
      by (rule map_of_dict_merge_other)
    then show ?thesis
      by (simp add: step kv update_conv')
  qed
qed

lemma update_first_None:
  "update_first sid updates xs = None \<longleftrightarrow> \<not> list_ex (has_id sid) xs"
  by (induction xs) (auto simp: has_id_def split: option.splits)

lemma update_first_Some:
  "update_first sid updates xs = Some (ys, u) \<Longrightarrow>
     \<exists>i < length xs. has_id sid (xs ! i) \<and> (\<forall>j < i. \<not> has_id sid (xs ! j))
       \<and> u = dict_merge (xs ! i) updates \<and> ys = xs[i := u]"
proof (induction xs arbitrary: ys)
  case Nil
  then show ?case by simp
next
  case (Cons x xs)
  show ?case
  proof (cases "has_id sid x")
    case True
    then have "u = dict_merge x updates \<and> ys = dict_merge x updates # xs"
      using Cons.prems by (auto simp: has_id_def)
    then have "has_id sid ((x # xs) ! 0) \<and> (\<forall>j < 0. \<not> has_id sid ((x # xs) ! j))
        \<and> u = dict_merge ((x # xs) ! 0) updates \<and> ys = (x # xs)[0 := u]"
      using True by simp
    then show ?thesis by blast
  next
    case False
    then obtain zs where zs: "update_first sid updates xs = Some (zs, u)" and ys: "ys = x # zs"
      using Cons.prems by (auto simp: has_id_def split: option.splits)
    from Cons.IH [OF zs] obtain i where i: "i < length xs" "has_id sid (xs ! i)"
      "\<forall>j < i. \<not> has_id sid (xs ! j)" "u = dict_merge (xs ! i) updates" "zs = xs[i := u]"
      by blast
    have "\<forall>j < Suc i. \<not> has_id sid ((x # xs) ! j)"
      using False i(3) by (auto simp: less_Suc_eq_0_disj)
    then have "Suc i < length (x # xs) \<and> has_id sid ((x # xs) ! Suc i)
        \<and> (\<forall>j < Suc i. \<not> has_id sid ((x # xs) ! j))
        \<and> u = dict_merge ((x # xs) ! Suc i) updates \<and> ys = (x # xs)[Suc i := u]"
      using i ys by simp
    then show ?thesis by blast
  qed
qed

lemma update_submission_return_cases:
  assumes l: "load_submissions py s = (xs, s1)"
  shows "update_submission_return py w s sid updates =
     (case update_first sid updates xs of
        None \<Rightarrow> (None, s1)
      | Some (ys, u) \<Rightarrow>
          (case w of
             WriteFails \<Rightarrow> (None, s1)
           | WriteOk t \<Rightarrow>
               (Some u, s1\<lparr>data_file := Content (JArr (map JObj ys)), file_mtime := t,
                           cache_mtime := Some t, cache_data := ys\<rparr>)))"
  by (simp add: update_submission_return_def l atomic_write_json_def
      split: option.splits write_result.splits)

lemma load_after_write:
  "load_submissions py (s1\<lparr>data_file := Content v, file_mtime := t,
                            cache_mtime := Some t, cache_data := ys\<rparr>) =
     (ys, s1\<lparr>data_file := Content v, file_mtime := t, cache_mtime := Some t, cache_data := ys\<rparr>)"
  by (simp add: load_submissions_def load_body_def)

text \<open>
  C3, as the code has it. Let \<open>xs\<close> be what the store lists. If no record of \<open>xs\<close> has the
  id, the update returns \<open>None\<close> (not found), the file is untouched and the store lists \<open>xs\<close>
  as before. If a record has the id and the file write succeeds, the update returns the first
  such record merged with the update; afterwards the store lists \<open>xs\<close> with that one record
  replaced, every other record as it was; in the merged record every field that the update
  does not name is as before, and every field it names has the given value. If a record has
  the id but the file write fails, the update returns \<open>None\<close> as well and nothing changes.
\<close>

theorem update_submission_return_frame:
  assumes "xs = fst (load_submissions py s)"
  shows
    "(\<not> list_ex (has_id sid) xs \<or> w = WriteFails \<longrightarrow>
        (\<exists>s'. update_submission_return py w s sid updates = (None, s')
           \<and> data_file s' = data_file s \<and> file_mtime s' = file_mtime s
           \<and> fst (load_submissions py s') = xs))
     \<and> (list_ex (has_id sid) xs \<and> w = WriteOk t \<longrightarrow>
        (\<exists>i s'. i < length xs \<and> has_id sid (xs ! i) \<and> (\<forall>j < i. \<not> has_id sid (xs ! j))
           \<and> update_submission_return py w s sid updates =
               (Some (dict_merge (xs ! i) updates), s')
           \<and> fst (load_submissions py s') = xs[i := dict_merge (xs ! i) updates]
           \<and> (\<forall>k. k \<notin> fst ` set updates \<longrightarrow>
                 map_of (dict_merge (xs ! i) updates) k = map_of (xs ! i) k)
           \<and> (distinct (map fst updates) \<longrightarrow>
                 (\<forall>(k, v) \<in> set updates. map_of (dict_merge (xs ! i) updates) k = Some v))))"
proof -
  obtain s1 where l: "load_submissions py s = (xs, s1)"
    using assms by (cases "load_submissions py s") simp
  have s1: "data_file s1 = data_file s" "file_mtime s1 = file_mtime s"
    "fst (load_submissions py s1) = xs"
    using load_submissions_file [of py s] load_submissions_idem [of py s] l by simp_all
  note c = update_submission_return_cases [OF l, of w sid updates]
  have a: "\<not> list_ex (has_id sid) xs \<or> w = WriteFails \<Longrightarrow>
        update_submission_return py w s sid updates = (None, s1)"
    using c update_first_None [of sid updates xs]
    by (auto split: option.splits)
  have b: "\<exists>i s'. i < length xs \<and> has_id sid (xs ! i) \<and> (\<forall>j < i. \<not> has_id sid (xs ! j))
           \<and> update_submission_return py w s sid updates =
               (Some (dict_merge (xs ! i) updates), s')
           \<and> fst (load_submissions py s') = xs[i := dict_merge (xs ! i) updates]
           \<and> (\<forall>k. k \<notin> fst ` set updates \<longrightarrow>
                 map_of (dict_merge (xs ! i) updates) k = map_of (xs ! i) k)
           \<and> (distinct (map fst updates) \<longrightarrow>
                 (\<forall>(k, v) \<in> set updates. map_of (dict_merge (xs ! i) updates) k = Some v))"
    if p: "list_ex (has_id sid) xs" and w: "w = WriteOk t"
  proof -
    from p obtain ys u where f: "update_first sid updates xs = Some (ys, u)"
      using update_first_None [of sid updates xs]
      by (cases "update_first sid updates xs") auto
    from update_first_Some [OF f] obtain i where i: "i < length xs" "has_id sid (xs ! i)"
      "\<forall>j < i. \<not> has_id sid (xs ! j)" "u = dict_merge (xs ! i) updates" "ys = xs[i := u]"
      by blast
    let ?s' = "s1\<lparr>data_file := Content (JArr (map JObj ys)), file_mtime := t,
                   cache_mtime := Some t, cache_data := ys\<rparr>"
    have r: "update_submission_return py w s sid updates = (Some u, ?s')"
      using c f w by simp
    have "fst (load_submissions py ?s') = ys"
      by (simp add: load_after_write)
    then have "i < length xs \<and> has_id sid (xs ! i) \<and> (\<forall>j < i. \<not> has_id sid (xs ! j))
           \<and> update_submission_return py w s sid updates =
               (Some (dict_merge (xs ! i) updates), ?s')
           \<and> fst (load_submissions py ?s') = xs[i := dict_merge (xs ! i) updates]
           \<and> (\<forall>k. k \<notin> fst ` set updates \<longrightarrow>
                 map_of (dict_merge (xs ! i) updates) k = map_of (xs ! i) k)
           \<and> (distinct (map fst updates) \<longrightarrow>
                 (\<forall>(k, v) \<in> set updates. map_of (dict_merge (xs ! i) updates) k = Some v))"
      using i r map_of_dict_merge_other [of _ updates "xs ! i"]
        map_of_dict_merge_named [of updates _ _ "xs ! i"]
      by auto
    then show ?thesis by blast
  qed
  show ?thesis
    using a b s1 by blast
qed

lemma load_one_record_store:
  "fst (load_submissions sample_builtins one_record_store) = [older_record]"
  by (simp add: load_submissions_def load_body_def one_record_store_def cold_store_def
      submissions_of_def List.map_filter_simps as_dict_def py_sort_newest_def)

theorem update_submission_return_frame_witness:
  "[older_record] = fst (load_submissions sample_builtins one_record_store)
   \<and> list_ex (has_id ''a'') [older_record] \<and> \<not> list_ex (has_id ''zz'') [older_record]
   \<and> distinct (map fst mark_failed)
   \<and> fst (update_submission_return sample_builtins (WriteOk 2) one_record_store ''a'' mark_failed)
       = Some (dict_merge older_record mark_failed)
   \<and> map_of (dict_merge older_record mark_failed) ''status'' = Some (JStr ''failed'')
   \<and> map_of (dict_merge older_record mark_failed) ''id'' = map_of older_record ''id''
   \<and> fst (update_submission_return sample_builtins (WriteOk 2) one_record_store ''zz'' mark_failed)
       = None
   \<and> fst (update_submission_return sample_builtins WriteFails one_record_store ''a'' mark_failed)
       = None"
proof -
  have l: "[older_record] = fst (load_submissions sample_builtins one_record_store)"
    by (simp add: load_one_record_store)
  have p: "list_ex (has_id ''a'') [older_record]" "\<not> list_ex (has_id ''zz'') [older_record]"
    by (simp_all add: has_id_def older_record_def)
  have d: "distinct (map fst mark_failed)" "(''status'', JStr ''failed'') \<in> set mark_failed"
    "''id'' \<notin> fst ` set mark_failed"
    by (simp_all add: mark_failed_def)
  have a: "fst (update_submission_return sample_builtins (WriteOk 2) one_record_store ''a''
                  mark_failed) = Some (dict_merge older_record mark_failed)
           \<and> map_of (dict_merge older_record mark_failed) ''status'' = Some (JStr ''failed'')
           \<and> map_of (dict_merge older_record mark_failed) ''id'' = map_of older_record ''id''"
    using update_submission_return_frame
      [OF l, of "''a''" "WriteOk 2" mark_failed 2] p d
    by fastforce
  have b: "fst (update_submission_return sample_builtins (WriteOk 2) one_record_store ''zz''
                  mark_failed) = None"
    using update_submission_return_frame
      [OF l, of "''zz''" "WriteOk 2" mark_failed 2] p
    by auto
  have c: "fst (update_submission_return sample_builtins WriteFails one_record_store ''a''
                  mark_failed) = None"
    using update_submission_return_frame
      [OF l, of "''a''" WriteFails mark_failed 2]
    by auto
  show ?thesis
    using l p d a b c by simp
qed

text \<open>
  The store lists a record with id \<open>a\<close>; the update of \<open>a\<close> returns \<open>None\<close>, not the merged
  record, when the file cannot be written.
\<close>

theorem update_write_failure_counterexample:
  "list_ex (has_id ''a'') (fst (load_submissions sample_builtins one_record_store))
   \<and> fst (update_submission_return sample_builtins WriteFails one_record_store ''a'' mark_failed)
       = None"
proof -
  obtain s1 where l: "load_submissions sample_builtins one_record_store = ([older_record], s1)"
    using load_one_record_store by (cases "load_submissions sample_builtins one_record_store") simp
  have "update_first ''a'' mark_failed [older_record] \<noteq> None"
    by (simp add: older_record_def)
  then have "fst (update_submission_return sample_builtins WriteFails one_record_store ''a''
                    mark_failed) = None"
    unfolding update_submission_return_cases [OF l]
    by (auto split: option.splits)
  then show ?thesis
    by (simp add: load_one_record_store has_id_def older_record_def)
qed

section \<open>Claims about the statistics endpoint\<close>







lemma rating_num_missing: "map_of r ''rating'' = None \<Longrightarrow> rating_num r = None"
  by (simp add: rating_num_def)






section \<open>Claims about submission ids\<close>

lemma digit_char_inj:
  assumes "d < 10" "e < 10" "digit_char d = digit_char e"
  shows "d = e"
proof -
  have "of_char (digit_char d) = (of_char (digit_char e) :: nat)"
    using assms(3) by simp
  then have "(48 + d) mod 256 = (48 + e) mod 256"
    by (simp add: digit_char_def)
  then show ?thesis
    using assms(1,2) by simp
qed

lemma digits_nonempty: "digits n \<noteq> []"
  by (subst digits.simps) simp

lemma digits_inj: "digits n = digits m \<Longrightarrow> n = m"
proof (induction n arbitrary: m rule: digits.induct)
  case (1 n)
  show ?case
  proof (cases "n < 10")
    case True
    then have n: "digits n = [digit_char n]"
      by (subst digits.simps) simp
    show ?thesis
    proof (cases "m < 10")
      case m: True
      then have "digits m = [digit_char m]"
        by (subst digits.simps) simp
      then show ?thesis
        using n 1(2) True m digit_char_inj by simp
    next
      case False
      then have "digits m = digits (m div 10) @ [digit_char (m mod 10)]"
        by (subst digits.simps) simp
      then show ?thesis
        using n 1(2) digits_nonempty [of "m div 10"] by simp
    qed
  next
    case False
    then have n: "digits n = digits (n div 10) @ [digit_char (n mod 10)]"
      by (subst digits.simps) simp
    show ?thesis
    proof (cases "m < 10")
      case True
      then have "digits m = [digit_char m]"
        by (subst digits.simps) simp
      then show ?thesis
        using n 1(2) digits_nonempty [of "n div 10"] by simp
    next
      case m: False
      then have "digits m = digits (m div 10) @ [digit_char (m mod 10)]"
        by (subst digits.simps) simp
      then have "digits (n div 10) = digits (m div 10)"
        and d: "digit_char (n mod 10) = digit_char (m mod 10)"
        using n 1(2) by simp_all
      then have "n div 10 = m div 10"
        using 1(1) False by simp
      moreover have "n mod 10 = m mod 10"
        using d by (intro digit_char_inj) simp_all
      ultimately show ?thesis
        by (metis div_mult_mod_eq)
    qed
  qed
qed

lemma digit_char_0: "digit_char 0 = CHR ''0''"
  by code_simp

lemma pad_2: "n < 100 \<Longrightarrow> pad 2 n = [digit_char (n div 10), digit_char (n mod 10)]"
proof (cases "n < 10")
  case True
  then have "digits n = [digit_char n]"
    by (subst digits.simps) simp
  then show ?thesis
    using True by (simp add: pad_def digit_char_0)
next
  case False
  assume "n < 100"
  then have "n div 10 < 10" by simp
  then have "digits (n div 10) = [digit_char (n div 10)]"
    by (subst digits.simps) simp
  then have "digits n = [digit_char (n div 10), digit_char (n mod 10)]"
    using False by (subst digits.simps) simp
  then show ?thesis
    by (simp add: pad_def)
qed

lemma pad_2_inj:
  assumes "n < 100" "m < 100" "pad 2 n = pad 2 m"
  shows "n = m"
proof -
  have "digit_char (n div 10) = digit_char (m div 10)"
    and "digit_char (n mod 10) = digit_char (m mod 10)"
    using assms by (simp_all add: pad_2)
  then have "n div 10 = m div 10" "n mod 10 = m mod 10"
    using assms(1,2) by (auto intro: digit_char_inj)
  then show ?thesis
    by (metis div_mult_mod_eq)
qed

lemma digits_4: 
  assumes "1000 \<le> y" "y \<le> 9999"
  shows "pad 4 y = digits y \<and> length (digits y) = 4"
proof -
  have f: "y div 1000 < 10" "\<not> y div 100 < 10" "\<not> y div 10 < 10" "\<not> y < 10"
    using assms by simp_all
  have g: "y div 100 div 10 = y div 1000" "y div 10 div 10 = y div 100"
    by (simp_all add: div_mult2_eq [symmetric])
  have a: "digits (y div 1000) = [digit_char (y div 1000)]"
    using f g by (subst digits.simps) simp
  have b: "digits (y div 100) = digits (y div 1000) @ [digit_char (y div 100 mod 10)]"
    using f g by (subst digits.simps) simp
  have c: "digits (y div 10) = digits (y div 100) @ [digit_char (y div 10 mod 10)]"
    using f g by (subst digits.simps) simp
  have d: "digits y = digits (y div 10) @ [digit_char (y mod 10)]"
    using f g by (subst digits.simps) simp
  have "length (digits y) = 4"
    by (simp add: a b c d)
  then show ?thesis
    by (simp add: pad_def)
qed


lemma length_pad_2: "n < 100 \<Longrightarrow> length (pad 2 n) = 2"
  by (simp add: pad_2)

lemma length_pad_4: "1000 \<le> y \<Longrightarrow> y \<le> 9999 \<Longrightarrow> length (pad 4 y) = 4"
  using digits_4 by simp

lemma pad_4_inj:
  assumes "1000 \<le> y" "y \<le> 9999" "1000 \<le> z" "z \<le> 9999" "pad 4 y = pad 4 z"
  shows "y = z"
  using assms digits_4 [of y] digits_4 [of z] digits_inj by simp

lemma valid_clock_bounds:
  assumes "valid_clock t"
  shows "1000 \<le> year t" "year t \<le> 9999" "month t < 100" "day t < 100" "hour t < 100"
    "minute t < 100" "second t < 100"
  using assms by (simp_all add: valid_clock_def)

lemma length_strftime_compact: "valid_clock t \<Longrightarrow> length (strftime_compact t) = 14"
  by (simp add: strftime_compact_def length_pad_2 length_pad_4 valid_clock_bounds)

lemma strftime_compact_inj:
  assumes a: "valid_clock a" and b: "valid_clock b"
    and e: "strftime_compact a = strftime_compact b"
  shows "same_second a b"
proof -
  note la = valid_clock_bounds [OF a] and lb = valid_clock_bounds [OF b]
  have "pad 4 (year a) = pad 4 (year b) \<and> pad 2 (month a) = pad 2 (month b)
        \<and> pad 2 (day a) = pad 2 (day b) \<and> pad 2 (hour a) = pad 2 (hour b)
        \<and> pad 2 (minute a) = pad 2 (minute b) \<and> pad 2 (second a) = pad 2 (second b)"
    using e
    by (simp add: strftime_compact_def append_eq_append_conv length_pad_2 length_pad_4 la lb)
  then show ?thesis
    using la lb by (auto simp: same_second_def intro: pad_2_inj pad_4_inj)
qed

lemma submission_id_of_inj:
  assumes a: "valid_clock a" and b: "valid_clock b"
    and e: "submission_id_of a r = submission_id_of b r'"
  shows "same_second a b \<and> r = r'"
proof -
  have "strftime_compact a @ (''_'' @ digits r) = strftime_compact b @ (''_'' @ digits r')"
    using e by (simp add: submission_id_of_def)
  then have "strftime_compact a = strftime_compact b \<and> ''_'' @ digits r = ''_'' @ digits r'"
    using length_strftime_compact [OF a] length_strftime_compact [OF b]
    by (subst (asm) append_eq_append_conv) simp_all
  then show ?thesis
    using strftime_compact_inj [OF a b] digits_inj by simp
qed

lemma same_second_id:
  "same_second a b \<Longrightarrow> submission_id_of a r = submission_id_of b r"
  by (simp add: same_second_def submission_id_of_def strftime_compact_def)

lemma build_submission_id:
  "has_id (submission_id_of (id_clock env) (random_draw env)) (build_submission py env rating review)"
  by (simp add: build_submission_def has_id_def Let_def)

lemma submit_review_Inr:
  assumes "submit_review py env s rating review = (Inr sub, s')"
  shows "sub = build_submission py env rating review
         \<and> fst (load_submissions py s') = fst (load_submissions py s) @ [sub]"
proof -
  have v: "\<not> (\<not> (1 \<le> rating \<and> rating \<le> 5) \<or> length review < 1)"
    using assms by (auto simp: submit_review_def split: if_splits)
  let ?x = "build_submission py env rating review"
  obtain r s2 where sv: "save_submission py (write_outcome env) s ?x = (r, s2)"
    by (cases "save_submission py (write_outcome env) s ?x")
  have r: "r \<noteq> None \<and> sub = ?x \<and> s' = s2"
    using assms v sv by (auto simp: submit_review_def Let_def split: option.splits)
  obtain t where w: "write_outcome env = WriteOk t"
  proof (cases "write_outcome env")
    case WriteFails
    then have "r = None"
      using sv by (auto simp: save_submission_def atomic_write_json_def split: prod.splits)
    then show ?thesis using r by simp
  next
    case (WriteOk t)
    then show ?thesis using that by simp
  qed
  from save_submission_ok [of py t s ?x r s2] sv w
  have "load_submissions py s2 = (fst (load_submissions py s) @ [?x], s2)"
    by simp
  then show ?thesis
    using r by simp
qed

lemma submit_review_ok:
  assumes "1 \<le> rating" "rating \<le> 5" "review \<noteq> []" "write_outcome env = WriteOk t"
  shows "fst (submit_review py env s rating review) = Inr (build_submission py env rating review)"
proof -
  let ?x = "build_submission py env rating review"
  obtain r s2 where sv: "save_submission py (WriteOk t) s ?x = (r, s2)"
    by (cases "save_submission py (WriteOk t) s ?x")
  from save_submission_ok [OF sv] have "r = Some ?x" by simp
  then show ?thesis
    using assms sv by (simp add: submit_review_def Let_def)
qed


text \<open>
  C8, as the code has it. The id of a new submission is made of the clock reading, to the
  second, and a random number; nothing compares it with the ids in the store. Two ids are
  equal exactly when the two readings fall in the same second and the two draws are equal.
  Whatever the store lists, an accepted submission gets the id made from its own reading and
  draw and is listed after the records already there.
\<close>

theorem submission_id_collisions:
  "(valid_clock a \<and> valid_clock b \<longrightarrow>
      (submission_id_of a r = submission_id_of b r' \<longleftrightarrow> same_second a b \<and> r = r'))
   \<and> (submit_review py env s rating review = (Inr sub, s') \<longrightarrow>
      has_id (submission_id_of (id_clock env) (random_draw env)) sub
      \<and> fst (load_submissions py s') = fst (load_submissions py s) @ [sub])"
proof (intro conjI impI)
  assume "valid_clock a \<and> valid_clock b"
  then show "submission_id_of a r = submission_id_of b r' \<longleftrightarrow> same_second a b \<and> r = r'"
    using submission_id_of_inj [of a b r r'] same_second_id [of a b r] by auto
next
  assume a: "submit_review py env s rating review = (Inr sub, s')"
  show "has_id (submission_id_of (id_clock env) (random_draw env)) sub"
    using submit_review_Inr [OF a] build_submission_id [of env py rating review] by simp
  show "fst (load_submissions py s') = fst (load_submissions py s) @ [sub]"
    using submit_review_Inr [OF a] by simp
qed

lemma noon_id: "submission_id_of noon 7 = ''sub_20240101120000_7''"
  by code_simp

lemma load_empty_store: "fst (load_submissions py (cold_store (Content (JArr [])))) = []"
  by (simp add: load_submissions_def load_body_def cold_store_def submissions_of_def
      List.map_filter_simps py_sort_newest_def)

theorem submission_id_collisions_witness:
  "valid_clock noon \<and> valid_clock (noon\<lparr>second := 1\<rparr>)
   \<and> \<not> same_second noon (noon\<lparr>second := 1\<rparr>)
   \<and> submission_id_of noon 7 \<noteq> submission_id_of (noon\<lparr>second := 1\<rparr>) 7
   \<and> submission_id_of noon 7 \<noteq> submission_id_of noon 8
   \<and> fst (submit_review sample_builtins (sample_env 2) (cold_store (Content (JArr []))) 5 ''Great'')
       = Inr (build_submission sample_builtins (sample_env 2) 5 ''Great'')
   \<and> has_id ''sub_20240101120000_7'' (build_submission sample_builtins (sample_env 2) 5 ''Great'')
   \<and> fst (load_submissions sample_builtins
          (snd (submit_review sample_builtins (sample_env 2) (cold_store (Content (JArr [])))
                  5 ''Great''))) =
       [build_submission sample_builtins (sample_env 2) 5 ''Great'']"
proof -
  have v: "valid_clock noon" "valid_clock (noon\<lparr>second := 1\<rparr>)"
    "\<not> same_second noon (noon\<lparr>second := 1\<rparr>)" "same_second noon noon"
    by (simp_all add: valid_clock_def noon_def same_second_def)
  let ?s = "cold_store (Content (JArr []))"
  let ?x = "build_submission sample_builtins (sample_env 2) 5 ''Great''"
  have f: "fst (submit_review sample_builtins (sample_env 2) ?s 5 ''Great'') = Inr ?x"
    by (rule submit_review_ok [where t = 2]) (simp_all add: sample_env_def)
  then have p: "submit_review sample_builtins (sample_env 2) ?s 5 ''Great'' =
      (Inr ?x, snd (submit_review sample_builtins (sample_env 2) ?s 5 ''Great''))"
    by (simp add: prod_eq_iff)
  have e: "id_clock (sample_env 2) = noon" "random_draw (sample_env 2) = 7"
    by (simp_all add: sample_env_def)
  show ?thesis
    using v f
      submission_id_collisions [of noon "noon\<lparr>second := 1\<rparr>" 7 7]
      submission_id_collisions [of noon noon 7 8]
      submission_id_collisions [of _ _ _ _ sample_builtins "sample_env 2" ?s 5 "''Great''" ?x
        "snd (submit_review sample_builtins (sample_env 2) ?s 5 ''Great'')"] p
    by (simp add: e noon_id load_empty_store)
qed

text \<open>
  Two reviews are submitted within the same second and the random draw is 7 both times:
  the store then lists two records, both with the id \<open>sub_20240101120000_7\<close>.
\<close>

theorem submission_id_counterexample:
  "length (fst (load_submissions sample_builtins after_two_submits)) = 2
   \<and> list_all (has_id ''sub_20240101120000_7'')
        (fst (load_submissions sample_builtins after_two_submits))"
proof -
  let ?s0 = "cold_store (Content (JArr []))"
  let ?x = "build_submission sample_builtins (sample_env 2) 5 ''Great''"
  let ?y = "build_submission sample_builtins (sample_env 3) 1 ''Bad''"
  let ?s1 = "snd (submit_review sample_builtins (sample_env 2) ?s0 5 ''Great'')"
  have "fst (submit_review sample_builtins (sample_env 2) ?s0 5 ''Great'') = Inr ?x"
    by (rule submit_review_ok [where t = 2]) (simp_all add: sample_env_def)
  then have "submit_review sample_builtins (sample_env 2) ?s0 5 ''Great'' = (Inr ?x, ?s1)"
    by (simp add: prod_eq_iff)
  from submit_review_Inr [OF this]
  have l1: "fst (load_submissions sample_builtins ?s1) = [?x]"
    by (simp add: load_empty_store)
  have "fst (submit_review sample_builtins (sample_env 3) ?s1 1 ''Bad'') = Inr ?y"
    by (rule submit_review_ok [where t = 3]) (simp_all add: sample_env_def)
  then have "submit_review sample_builtins (sample_env 3) ?s1 1 ''Bad'' = (Inr ?y, after_two_submits)"
    by (simp add: prod_eq_iff after_two_submits_def)
  from submit_review_Inr [OF this]
  have l2: "fst (load_submissions sample_builtins after_two_submits) = [?x, ?y]"
    by (simp add: l1)
  have "has_id ''sub_20240101120000_7'' ?x" "has_id ''sub_20240101120000_7'' ?y"
    using build_submission_id [of "sample_env 2" sample_builtins 5 "''Great''"]
      build_submission_id [of "sample_env 3" sample_builtins 1 "''Bad''"]
    by (simp_all add: sample_env_def noon_id)
  then show ?thesis
    by (simp add: l2)
qed

end
